theory Spec2Isabelle
  imports Main
begin

section \<open>JavaScript values and strings\<close>

text \<open>
  The sign-in callback of \<^verbatim>\<open>packages/database/auth/auth-options.ts\<close> receives values
  of unknown run-time type and tests them with truthiness and \<^verbatim>\<open>typeof\<close>.
  A value is one of the primitive kinds, or an opaque object (\<open>JObj\<close>). Numbers are
  integers here; no claim depends on a fractional number or on \<^verbatim>\<open>NaN\<close>.

  A string is a list of characters with codes 0 to 255, read as the code points
  U+0000 to U+00FF.
\<close>

datatype jsval =
    JUndefined
  | JNull
  | JBool bool
  | JNum int
  | JStr string
  | JObj

fun truthy :: "jsval \<Rightarrow> bool" where
  "truthy JUndefined = False"
| "truthy JNull = False"
| "truthy (JBool b) = b"
| "truthy (JNum n) = (n \<noteq> 0)"
| "truthy (JStr s) = (s \<noteq> [])"
| "truthy JObj = True"

fun typeof :: "jsval \<Rightarrow> string" where
  "typeof JUndefined = ''undefined''"
| "typeof JNull = ''object''"
| "typeof (JBool b) = ''boolean''"
| "typeof (JNum n) = ''number''"
| "typeof (JStr s) = ''string''"
| "typeof JObj = ''object''"

text \<open>\<^verbatim>\<open>a || b\<close>: the left operand when it is truthy, the right one otherwise.\<close>

definition js_or :: "jsval \<Rightarrow> jsval \<Rightarrow> jsval" where
  "js_or a b = (if truthy a then a else b)"

text \<open>
  \<^verbatim>\<open>String.prototype.toLowerCase\<close> on the code points below 256: the letters A to Z,
  and U+00C0 to U+00DE without the multiplication sign U+00D7, move up by 32.
\<close>

definition toLowerChar :: "char \<Rightarrow> char" where
  "toLowerChar c =
     (let n = (of_char c :: nat)
      in if (65 \<le> n \<and> n \<le> 90) \<or> (192 \<le> n \<and> n \<le> 222 \<and> n \<noteq> 215)
         then char_of (n + 32) else c)"

definition toLowerCase :: "string \<Rightarrow> string" where
  "toLowerCase s = map toLowerChar s"

text \<open>
  \<^verbatim>\<open>String.prototype.trim\<close> removes white space and line terminators from both ends.
  Below 256 these are TAB, LF, VT, FF, CR, SPACE and NO-BREAK SPACE.
\<close>

definition isWhiteSpace :: "char \<Rightarrow> bool" where
  "isWhiteSpace c = ((of_char c :: nat) \<in> {9, 10, 11, 12, 13, 32, 160})"

definition trim :: "string \<Rightarrow> string" where
  "trim s = rev (dropWhile isWhiteSpace (rev (dropWhile isWhiteSpace s)))"

section \<open>The database and the console\<close>

text \<open>
  The three tables the callback reads, with the columns it names
  (\<^verbatim>\<open>users.id\<close>, \<^verbatim>\<open>users.email\<close>, \<^verbatim>\<open>organizationMembers.id\<close>,
  \<^verbatim>\<open>organizationMembers.userId\<close>, \<^verbatim>\<open>organizationInvites.id\<close>,
  \<^verbatim>\<open>organizationInvites.email\<close>). A table is the list of its rows in the order the
  database returns them. \<^verbatim>\<open>eq(column, value)\<close> is equality of strings.
\<close>

record users_row =
  users_id :: string
  users_email :: string

record organizationMembers_row =
  organizationMembers_id :: string
  organizationMembers_userId :: string

record organizationInvites_row =
  organizationInvites_id :: string
  organizationInvites_email :: string

record database =
  users :: "users_row list"
  organizationMembers :: "organizationMembers_row list"
  organizationInvites :: "organizationInvites_row list"

text \<open>The three statements the callback sends, each with the value of its \<^verbatim>\<open>where\<close> clause.\<close>

datatype query =
    SelectUsersWhereEmail string
  | SelectOrganizationMembersWhereUserId string
  | SelectOrganizationInvitesWhereEmail string

text \<open>
  What a call can read or change: the database, the statements sent to it so far and the
  lines written with \<^verbatim>\<open>console.warn\<close> (both oldest first).
\<close>

record world =
  db :: database
  queries :: "query list"
  console :: "string list"

text \<open>
  \<^verbatim>\<open>db().select({ id: t.id }).from(t).where(eq(t.c, v)).limit(1)\<close> for each of the
  three tables: the ids of the matching rows, at most one of them, and the statement recorded.
\<close>

definition selectUsers :: "string \<Rightarrow> world \<Rightarrow> string list \<times> world" where
  "selectUsers v w =
     (take 1 (map users_id (filter (\<lambda>r. users_email r = v) (users (db w)))),
      w\<lparr>queries := queries w @ [SelectUsersWhereEmail v]\<rparr>)"

definition selectOrganizationMembers :: "string \<Rightarrow> world \<Rightarrow> string list \<times> world" where
  "selectOrganizationMembers v w =
     (take 1 (map organizationMembers_id
        (filter (\<lambda>r. organizationMembers_userId r = v) (organizationMembers (db w)))),
      w\<lparr>queries := queries w @ [SelectOrganizationMembersWhereUserId v]\<rparr>)"

definition selectOrganizationInvites :: "string \<Rightarrow> world \<Rightarrow> string list \<times> world" where
  "selectOrganizationInvites v w =
     (take 1 (map organizationInvites_id
        (filter (\<lambda>r. organizationInvites_email r = v) (organizationInvites (db w)))),
      w\<lparr>queries := queries w @ [SelectOrganizationInvitesWhereEmail v]\<rparr>)"

definition console_warn :: "string \<Rightarrow> world \<Rightarrow> world" where
  "console_warn line w = w\<lparr>console := console w @ [line]\<rparr>"

section \<open>The sign-in callback\<close>

definition INVITE_ONLY_ALLOWED_EMAILS :: "string set" where
  "INVITE_ONLY_ALLOWED_EMAILS =
     set (map toLowerCase [''gustavo.toledo@gmail.com'', ''johannaosoriolizarazo@gmail.com''])"

text \<open>
  \<^verbatim>\<open>user?.email\<close> and \<^verbatim>\<open>credentials?.email\<close>: the argument is \<open>None\<close> when the
  object is null or undefined, and \<open>Some v\<close> when it is an object whose \<^verbatim>\<open>email\<close>
  property reads as \<open>v\<close> (\<open>JUndefined\<close> for a missing property).
\<close>

fun optional_email :: "jsval option \<Rightarrow> jsval" where
  "optional_email None = JUndefined"
| "optional_email (Some v) = v"

text \<open>Lines 130 to 136: the constant \<^verbatim>\<open>userEmail\<close>.\<close>

definition userEmail :: "jsval option \<Rightarrow> jsval \<Rightarrow> jsval option \<Rightarrow> jsval" where
  "userEmail user email credentials =
     js_or (optional_email user)
       (if typeof email = ''string'' then email
        else if typeof (optional_email credentials) = ''string'' then optional_email credentials
        else JNull)"

text \<open>
  Lines 154 to 162: \<^verbatim>\<open>existingUser\<close> is the first row of the result, undefined for
  an empty result; its id is tested for truthiness before the members are read.
\<close>

definition memberCheck :: "string list \<Rightarrow> world \<Rightarrow> bool \<times> world" where
  "memberCheck rows w =
     (case rows of
        [] \<Rightarrow> (False, w)
      | existingUser # _ \<Rightarrow>
          if truthy (JStr existingUser)
          then (let (member, w') = selectOrganizationMembers existingUser w
                in (length member > 0, w'))
          else (False, w))"

text \<open>Lines 148 to 175: the lookups for an email that is not on the fixed list.\<close>

definition lookups :: "string \<Rightarrow> world \<Rightarrow> bool \<times> world" where
  "lookups normalizedEmail w =
     (let (rows, w1) = selectUsers normalizedEmail w;
          (isMember, w2) = memberCheck rows w1
      in if isMember then (True, w2)
         else let (invite, w3) = selectOrganizationInvites normalizedEmail w2
              in if length invite > 0 then (True, w3)
                 else (False,
                       console_warn (''Signup blocked (invite-only): '' @ normalizedEmail) w3))"

text \<open>Lines 139 to 175: the decision for the resolved email.\<close>

definition authorize :: "jsval \<Rightarrow> world \<Rightarrow> bool \<times> world" where
  "authorize candidate w =
     (if \<not> truthy candidate \<or> typeof candidate \<noteq> ''string'' then (False, w)
      else case candidate of
             JStr s \<Rightarrow>
               (let normalizedEmail = trim (toLowerCase s)
                in if normalizedEmail \<in> INVITE_ONLY_ALLOWED_EMAILS then (True, w)
                   else lookups normalizedEmail w)
           | _ \<Rightarrow> (False, w))"

definition signIn :: "jsval option \<Rightarrow> jsval \<Rightarrow> jsval option \<Rightarrow> world \<Rightarrow> bool \<times> world" where
  "signIn user email credentials w = authorize (userEmail user email credentials) w"


section \<open>The email provider's verification token\<close>

text \<open>
  Line 78: \<^verbatim>\<open>crypto.randomInt(100000, 1000000).toString()\<close>. The runtime chooses the
  integer; \<open>randomInt lo hi\<close> is the set of integers it can return, those from \<open>lo\<close> up to
  but not including \<open>hi\<close>, and \<open>generateVerificationToken\<close> the set of tokens that can
  result. \<open>toString\<close> writes an integer in base ten.
\<close>

definition randomInt :: "int \<Rightarrow> int \<Rightarrow> int set" where
  "randomInt lo hi = {lo..<hi}"

definition digitChar :: "nat \<Rightarrow> char" where
  "digitChar d = char_of (48 + d)"

fun decimal :: "nat \<Rightarrow> string" where
  "decimal n = (if n < 10 then [digitChar n] else decimal (n div 10) @ [digitChar (n mod 10)])"

definition toString :: "int \<Rightarrow> string" where
  "toString n = (if n < 0 then CHR ''-'' # decimal (nat (- n)) else decimal (nat n))"

definition generateVerificationToken :: "string set" where
  "generateVerificationToken = toString ` randomInt 100000 1000000"

definition isDecimalDigit :: "char \<Rightarrow> bool" where
  "isDecimalDigit c = (48 \<le> (of_char c :: nat) \<and> (of_char c :: nat) \<le> 57)"

section \<open>The vocabulary of the specification\<close>

text \<open>
  Modelled from the spec: \<^verbatim>\<open>schema.ts\<close>, which declares the tables, is not among the
  sources. Section 3 of the specification gives the users table one record per email, and
  calls the id column an identifier; the callback tests that identifier for truthiness, so
  an identifier is taken to be a non-empty string.
\<close>

definition wf_database :: "database \<Rightarrow> bool" where
  "wf_database d =
     (distinct (map users_email (users d)) \<and> (\<forall>u \<in> set (users d). users_id u \<noteq> []))"

text \<open>
  The two conditions on the database that the specification names: a user record with the
  email exists and that user has at least one organization-membership record; at least one
  organization invite exists for the email. The callback reads no column of an invite but
  its email, so every invite record counts as a pending invite.
\<close>

definition memberExists :: "database \<Rightarrow> string \<Rightarrow> bool" where
  "memberExists d e =
     (\<exists>u \<in> set (users d). users_email u = e \<and>
        (\<exists>m \<in> set (organizationMembers d). organizationMembers_userId m = users_id u))"

definition inviteExists :: "database \<Rightarrow> string \<Rightarrow> bool" where
  "inviteExists d e = (\<exists>i \<in> set (organizationInvites d). organizationInvites_email i = e)"

section \<open>Example states\<close>

definition freshWorld :: "database \<Rightarrow> world" where
  "freshWorld d = \<lparr>db = d, queries = [], console = []\<rparr>"

definition emptyDatabase :: database where
  "emptyDatabase = \<lparr>users = [], organizationMembers = [], organizationInvites = []\<rparr>"

text \<open>One invite, for \<^verbatim>\<open>invited@example.com\<close>.\<close>

definition invitedDatabase :: database where
  "invitedDatabase =
     \<lparr>users = [], organizationMembers = [],
      organizationInvites =
        [\<lparr>organizationInvites_id = ''inv1'',
          organizationInvites_email = ''invited@example.com''\<rparr>]\<rparr>"

text \<open>One user, \<^verbatim>\<open>member@example.com\<close>, who belongs to an organization; no invite.\<close>

definition memberDatabase :: database where
  "memberDatabase =
     \<lparr>users = [\<lparr>users_id = ''u1'', users_email = ''member@example.com''\<rparr>],
      organizationMembers =
        [\<lparr>organizationMembers_id = ''m1'', organizationMembers_userId = ''u1''\<rparr>],
      organizationInvites = []\<rparr>"

text \<open>One invite whose email column holds the empty string.\<close>

definition blankInviteDatabase :: database where
  "blankInviteDatabase =
     \<lparr>users = [], organizationMembers = [],
      organizationInvites =
        [\<lparr>organizationInvites_id = ''inv1'', organizationInvites_email = []\<rparr>]\<rparr>"

text \<open>One user whose email column holds the empty string, who belongs to an organization.\<close>

definition blankMemberDatabase :: database where
  "blankMemberDatabase =
     \<lparr>users = [\<lparr>users_id = ''u1'', users_email = []\<rparr>],
      organizationMembers =
        [\<lparr>organizationMembers_id = ''m1'', organizationMembers_userId = ''u1''\<rparr>],
      organizationInvites = []\<rparr>"

text \<open>
  Two states outside \<open>wf_database\<close>: two user records with one email, of which only
  the second belongs to an organization; and a member whose identifier is the empty string.
\<close>

definition duplicateEmailDatabase :: database where
  "duplicateEmailDatabase =
     \<lparr>users = [\<lparr>users_id = ''u1'', users_email = ''member@example.com''\<rparr>,
               \<lparr>users_id = ''u2'', users_email = ''member@example.com''\<rparr>],
      organizationMembers =
        [\<lparr>organizationMembers_id = ''m1'', organizationMembers_userId = ''u2''\<rparr>],
      organizationInvites = []\<rparr>"

definition blankIdentifierDatabase :: database where
  "blankIdentifierDatabase =
     \<lparr>users = [\<lparr>users_id = [], users_email = ''member@example.com''\<rparr>],
      organizationMembers =
        [\<lparr>organizationMembers_id = ''m1'', organizationMembers_userId = []\<rparr>],
      organizationInvites = []\<rparr>"

section \<open>Normalisation of strings\<close>

lemma toLowerChar_idem: "toLowerChar (toLowerChar c) = toLowerChar c"
  by (simp add: toLowerChar_def Let_def)

lemma isWhiteSpace_toLowerChar: "isWhiteSpace (toLowerChar c) = isWhiteSpace c"
  by (auto simp add: toLowerChar_def isWhiteSpace_def Let_def)

lemma toLowerCase_idem: "toLowerCase (toLowerCase s) = toLowerCase s"
  by (simp add: toLowerCase_def toLowerChar_idem)

lemma toLowerCase_dropWhile:
  "toLowerCase (dropWhile isWhiteSpace s) = dropWhile isWhiteSpace (toLowerCase s)"
  by (simp add: toLowerCase_def dropWhile_map comp_def isWhiteSpace_toLowerChar)

lemma toLowerCase_rev: "toLowerCase (rev s) = rev (toLowerCase s)"
  by (simp add: toLowerCase_def rev_map)

lemma toLowerCase_trim: "toLowerCase (trim s) = trim (toLowerCase s)"
  by (simp add: trim_def toLowerCase_rev toLowerCase_dropWhile)

lemma last_dropWhile: "dropWhile P xs \<noteq> [] \<Longrightarrow> last (dropWhile P xs) = last xs"
  by (induction xs) (auto split: if_splits)

lemma dropWhile_fixed: "xs = [] \<or> \<not> P (hd xs) \<Longrightarrow> dropWhile P xs = xs"
  by (cases xs) auto

lemma trim_idem: "trim (trim s) = trim s"
proof -
  define t where "t = dropWhile isWhiteSpace s"
  define u where "u = dropWhile isWhiteSpace (rev t)"
  have ht: "t = [] \<or> \<not> isWhiteSpace (hd t)"
    unfolding t_def using hd_dropWhile [of isWhiteSpace s] by blast
  have hu: "u = [] \<or> \<not> isWhiteSpace (hd u)"
    unfolding u_def using hd_dropWhile [of isWhiteSpace "rev t"] by blast
  have lu: "u = [] \<or> \<not> isWhiteSpace (last u)"
  proof (cases "u = []")
    case True
    then show ?thesis by simp
  next
    case False
    then have "last u = last (rev t)"
      unfolding u_def by (rule last_dropWhile)
    moreover from False have "t \<noteq> []"
      unfolding u_def by auto
    ultimately show ?thesis
      using ht by (simp add: last_rev)
  qed
  have "dropWhile isWhiteSpace (rev u) = rev u"
    using lu by (intro dropWhile_fixed) (auto simp add: hd_rev)
  moreover have "dropWhile isWhiteSpace u = u"
    using hu by (rule dropWhile_fixed)
  ultimately show ?thesis
    by (simp add: trim_def t_def [symmetric] u_def [symmetric])
qed

lemma normalize_idem:
  "trim (toLowerCase (trim (toLowerCase s))) = trim (toLowerCase s)"
  by (simp add: toLowerCase_trim toLowerCase_idem trim_idem)

section \<open>What the lookups compute\<close>

lemma take1_nonempty: "(0 < length (take 1 xs)) = (xs \<noteq> [])"
  by (cases xs) auto

lemma selectOrganizationMembers_result:
  "(0 < length (fst (selectOrganizationMembers v w))) =
     (\<exists>m \<in> set (organizationMembers (db w)). organizationMembers_userId m = v)"
  by (auto simp add: selectOrganizationMembers_def take1_nonempty filter_empty_conv)

lemma selectOrganizationInvites_result:
  "(0 < length (fst (selectOrganizationInvites v w))) = inviteExists (db w) v"
  by (auto simp add: selectOrganizationInvites_def inviteExists_def take1_nonempty filter_empty_conv)

lemma selectUsers_db: "db (snd (selectUsers v w)) = db w"
  by (simp add: selectUsers_def)
lemma selectOrganizationMembers_db: "db (snd (selectOrganizationMembers v w)) = db w"
  by (simp add: selectOrganizationMembers_def)
lemma selectOrganizationInvites_db: "db (snd (selectOrganizationInvites v w)) = db w"
  by (simp add: selectOrganizationInvites_def)

lemma memberCheck_db: "db (snd (memberCheck rows w)) = db w"
  by (simp add: memberCheck_def selectOrganizationMembers_def split: list.splits prod.splits)

lemma memberCheck_console: "console (snd (memberCheck rows w)) = console w"
  by (simp add: memberCheck_def selectOrganizationMembers_def split: list.splits prod.splits)

lemma memberCheck_result:
  "fst (memberCheck rows w) =
     (case rows of [] \<Rightarrow> False
      | i # _ \<Rightarrow> i \<noteq> [] \<and> (\<exists>m \<in> set (organizationMembers (db w)). organizationMembers_userId m = i))"
  using selectOrganizationMembers_result
  by (auto simp add: memberCheck_def split: list.splits prod.splits) (metis fst_conv)+

lemma filter_distinct_key:
  "distinct (map f xs) \<Longrightarrow> x \<in> set xs \<Longrightarrow> filter (\<lambda>r. f r = f x) xs = [x]"
proof (induction xs)
  case Nil
  then show ?case by simp
next
  case (Cons y ys)
  show ?case
  proof (cases "x = y")
    case True
    have "\<forall>r \<in> set ys. f r \<noteq> f y"
      using Cons.prems(1) by (auto simp add: image_iff)
    then have "filter (\<lambda>r. f r = f y) ys = []"
      by (simp add: filter_empty_conv)
    with True show ?thesis by simp
  next
    case False
    with Cons.prems have "x \<in> set ys" and "f y \<noteq> f x" and "distinct (map f ys)"
      by auto
    with Cons.IH show ?thesis by simp
  qed
qed

lemma selectUsers_first:
  "fst (selectUsers e w) = i # rest \<Longrightarrow>
     \<exists>u \<in> set (users (db w)). users_email u = e \<and> users_id u = i"
proof -
  assume a: "fst (selectUsers e w) = i # rest"
  define us where "us = filter (\<lambda>r. users_email r = e) (users (db w))"
  from a have "take 1 (map users_id us) = i # rest"
    by (simp add: selectUsers_def us_def)
  then obtain u us' where u: "us = u # us'" and i: "users_id u = i"
    by (cases us) auto
  from u have "u \<in> set us" by simp
  then have "u \<in> set (users (db w))" and "users_email u = e"
    by (simp_all add: us_def)
  with i show ?thesis by blast
qed

lemma selectUsers_unique:
  assumes "distinct (map users_email (users (db w)))"
    and "u \<in> set (users (db w))"
  shows "fst (selectUsers (users_email u) w) = [users_id u]"
  using filter_distinct_key [OF assms] by (simp add: selectUsers_def)

lemma selectUsers_wf:
  assumes "wf_database (db w)" and that: "db w' = db w"
  shows "fst (memberCheck (fst (selectUsers e w)) w') = memberExists (db w') e"
proof (cases "memberExists (db w) e")
  case True
  then obtain u m where u: "u \<in> set (users (db w))" "users_email u = e"
    and m: "m \<in> set (organizationMembers (db w))" "organizationMembers_userId m = users_id u"
    by (auto simp add: memberExists_def)
  from assms(1) u have "fst (selectUsers e w) = [users_id u]" and "users_id u \<noteq> []"
    using selectUsers_unique [of w u] by (auto simp add: wf_database_def)
  with m True that show ?thesis
    by (auto simp add: memberCheck_result)
next
  case False
  have "\<not> fst (memberCheck (fst (selectUsers e w)) w')"
  proof (cases "fst (selectUsers e w)")
    case Nil
    then show ?thesis by (simp add: memberCheck_result)
  next
    case (Cons i rest)
    from selectUsers_first [OF Cons] obtain u
      where "u \<in> set (users (db w))" "users_email u = e" "users_id u = i"
      by blast
    with False have "\<not> (\<exists>m \<in> set (organizationMembers (db w)). organizationMembers_userId m = i)"
      by (auto simp add: memberExists_def)
    with Cons that show ?thesis by (simp add: memberCheck_result)
  qed
  with False that show ?thesis by simp
qed

lemma memberCheck_sound:
  "fst (memberCheck (fst (selectUsers e w)) w') \<Longrightarrow> db w' = db w \<Longrightarrow> memberExists (db w) e"
proof -
  assume a: "fst (memberCheck (fst (selectUsers e w)) w')" and d: "db w' = db w"
  then obtain i rest where c: "fst (selectUsers e w) = i # rest"
    by (cases "fst (selectUsers e w)") (auto simp add: memberCheck_result)
  from selectUsers_first [OF c] obtain u
    where "u \<in> set (users (db w))" "users_email u = e" "users_id u = i"
    by blast
  with a c d show ?thesis
    by (auto simp add: memberCheck_result memberExists_def)
qed

lemma lookups_result:
  "fst (lookups n w) = (fst (memberCheck (fst (selectUsers n w)) (snd (selectUsers n w))) \<or> inviteExists (db w) n)"
  using selectOrganizationInvites_result [of n "snd (memberCheck (fst (selectUsers n w)) (snd (selectUsers n w)))"]
  by (auto simp add: lookups_def Let_def memberCheck_db selectUsers_db split: prod.splits)


lemma lookups_wf:
  "wf_database (db w) \<Longrightarrow> fst (lookups n w) = (memberExists (db w) n \<or> inviteExists (db w) n)"
  by (simp add: lookups_result selectUsers_wf selectUsers_db)

lemma lookups_sound:
  "fst (lookups n w) \<Longrightarrow> memberExists (db w) n \<or> inviteExists (db w) n"
  using memberCheck_sound [of n w "snd (selectUsers n w)"]
  by (auto simp add: lookups_result selectUsers_db)

lemma lookups_db: "db (snd (lookups n w)) = db w"
  by (simp add: lookups_def Let_def split_beta memberCheck_db selectUsers_db
      selectOrganizationInvites_db console_warn_def)

section \<open>Decimal numerals\<close>

declare decimal.simps [simp del]

lemma digitChar_digit: "d < 10 \<Longrightarrow> isDecimalDigit (digitChar d)"
  by (simp add: isDecimalDigit_def digitChar_def)

lemma digitChar_nonzero: "0 < d \<Longrightarrow> d < 10 \<Longrightarrow> digitChar d \<noteq> CHR ''0''"
proof
  assume d: "0 < d" "d < 10" and "digitChar d = CHR ''0''"
  then have "(of_char (char_of (48 + d)) :: nat) = of_char CHR ''0''"
    by (simp only: digitChar_def)
  with d show False by simp
qed

lemma decimal_nonempty: "decimal n \<noteq> []"
  by (subst decimal.simps) simp

lemma decimal_digits: "\<forall>c \<in> set (decimal n). isDecimalDigit c"
proof (induction n rule: decimal.induct)
  case (1 n)
  show ?case
  proof (cases "n < 10")
    case True
    then show ?thesis by (subst decimal.simps) (simp add: digitChar_digit)
  next
    case False
    with "1" show ?thesis by (subst decimal.simps) (simp add: digitChar_digit)
  qed
qed

lemma decimal_leading: "0 < n \<Longrightarrow> hd (decimal n) \<noteq> CHR ''0''"
proof (induction n rule: decimal.induct)
  case (1 n)
  show ?case
  proof (cases "n < 10")
    case True
    with "1.prems" show ?thesis by (subst decimal.simps) (simp add: digitChar_nonzero)
  next
    case False
    then have "0 < n div 10" by simp
    with "1.IH" False have "hd (decimal (n div 10)) \<noteq> CHR ''0''" by simp
    with False show ?thesis by (subst decimal.simps) (simp add: decimal_nonempty)
  qed
qed

lemma decimal_length: "10 ^ k \<le> n \<Longrightarrow> n < 10 ^ Suc k \<Longrightarrow> length (decimal n) = Suc k"
proof (induction k arbitrary: n)
  case 0
  then show ?case by (subst decimal.simps) simp
next
  case (Suc k)
  have p: "(1::nat) \<le> 10 ^ k" by simp
  have lo: "10 * 10 ^ k \<le> n" and hi: "n < 10 * (10 * 10 ^ k)"
    using Suc.prems by simp_all
  from p lo have big: "\<not> n < 10" by linarith
  from lo hi have "10 ^ k \<le> n div 10" and "n div 10 < 10 ^ Suc k"
    unfolding power_Suc by linarith+
  then have "length (decimal (n div 10)) = Suc k" by (rule Suc.IH)
  with big show ?case by (subst decimal.simps) simp
qed

lemma digitChar_values:
  "digitChar 0 = CHR ''0''" "digitChar 1 = CHR ''1''" "digitChar 2 = CHR ''2''"
  "digitChar 3 = CHR ''3''" "digitChar 4 = CHR ''4''" "digitChar 5 = CHR ''5''"
  "digitChar 6 = CHR ''6''" "digitChar 7 = CHR ''7''" "digitChar 8 = CHR ''8''"
  "digitChar 9 = CHR ''9''" "digitChar (Suc 0) = CHR ''1''"
  by code_simp+

section \<open>The decision for a string\<close>

lemma normalize_Nil: "trim (toLowerCase []) = []"
  by (simp add: trim_def toLowerCase_def)

lemma allowed_values:
  "INVITE_ONLY_ALLOWED_EMAILS = {''gustavo.toledo@gmail.com'', ''johannaosoriolizarazo@gmail.com''}"
proof -
  have "toLowerCase ''gustavo.toledo@gmail.com'' = ''gustavo.toledo@gmail.com''" by code_simp
  moreover have "toLowerCase ''johannaosoriolizarazo@gmail.com'' = ''johannaosoriolizarazo@gmail.com''"
    by code_simp
  ultimately show ?thesis by (simp add: INVITE_ONLY_ALLOWED_EMAILS_def)
qed

lemma Nil_not_allowed: "[] \<notin> INVITE_ONLY_ALLOWED_EMAILS"
  by (simp add: allowed_values)

lemma authorize_JStr:
  "authorize (JStr e) w =
     (if e = [] then (False, w)
      else if trim (toLowerCase e) \<in> INVITE_ONLY_ALLOWED_EMAILS then (True, w)
      else lookups (trim (toLowerCase e)) w)"
  by (simp add: authorize_def Let_def)

lemma authorize_not_string: "typeof c \<noteq> ''string'' \<Longrightarrow> authorize c w = (False, w)"
  by (cases c) (simp_all add: authorize_def)

lemma memberCheck_queries:
  "\<exists>qs. queries (snd (memberCheck rows w)) = queries w @ qs \<and> length qs \<le> 1"
  by (cases rows) (simp_all add: memberCheck_def selectOrganizationMembers_def)

lemma lookups_console:
  "\<not> fst (lookups n w) \<Longrightarrow>
     console (snd (lookups n w)) = console w @ [''Signup blocked (invite-only): '' @ n]"
  by (simp add: lookups_def Let_def split_beta memberCheck_console selectUsers_def
      selectOrganizationInvites_def console_warn_def split: if_splits)

lemma lookups_queries:
  "\<exists>qs. queries (snd (lookups n w)) = queries w @ qs \<and> length qs \<le> 3"
proof -
  define w1 where "w1 = snd (selectUsers n w)"
  define rows where "rows = fst (selectUsers n w)"
  have q1: "queries w1 = queries w @ [SelectUsersWhereEmail n]"
    by (simp add: w1_def selectUsers_def)
  obtain qs where q2: "queries (snd (memberCheck rows w1)) = queries w1 @ qs" and l: "length qs \<le> 1"
    using memberCheck_queries by blast
  show ?thesis
  proof (cases "fst (memberCheck rows w1)")
    case True
    then have "snd (lookups n w) = snd (memberCheck rows w1)"
      by (simp add: lookups_def Let_def split_beta w1_def rows_def)
    with q1 q2 l show ?thesis by simp
  next
    case False
    then have "queries (snd (lookups n w)) =
        queries (snd (memberCheck rows w1)) @ [SelectOrganizationInvitesWhereEmail n]"
      by (simp add: lookups_def Let_def split_beta w1_def rows_def
          selectOrganizationInvites_def console_warn_def)
    with q1 q2 l show ?thesis by simp
  qed
qed

section \<open>Outside the invariants of the database\<close>

text \<open>
  The callback reads the first user record that the database returns for the email, and
  takes it for a user only when its identifier is truthy. Where two records share the email,
  or the identifier is the empty string, a member can be turned away; the theorems below
  that conclude from a membership therefore assume \<open>wf_database\<close>.
\<close>

lemma duplicate_emails_example:
  "\<not> wf_database duplicateEmailDatabase \<and>
   memberExists duplicateEmailDatabase ''member@example.com'' \<and>
   \<not> fst (authorize (JStr ''member@example.com'') (freshWorld duplicateEmailDatabase))"
  by code_simp

lemma blank_identifier_example:
  "\<not> wf_database blankIdentifierDatabase \<and>
   memberExists blankIdentifierDatabase ''member@example.com'' \<and>
   \<not> fst (authorize (JStr ''member@example.com'') (freshWorld blankIdentifierDatabase))"
  by code_simp

section \<open>The claims\<close>

text \<open>
  C1. A sign-in is decided by the email that lines 130 to 136 resolve. In a database that
  satisfies \<open>wf_database\<close>, \<open>signIn\<close> returns true exactly when that email is a non-empty
  string and its normalised form (lower-cased, then trimmed) is on the fixed list, or is the
  email of a user record whose user has an organization-membership record, or is the email
  of an organization invite. An absent, non-string or empty email is denied.
\<close>

theorem signIn_decision:
  "wf_database (db w) \<Longrightarrow>
   fst (signIn user email credentials w) =
     (\<exists>e. userEmail user email credentials = JStr e \<and> e \<noteq> [] \<and>
        (trim (toLowerCase e) \<in> INVITE_ONLY_ALLOWED_EMAILS \<or>
         memberExists (db w) (trim (toLowerCase e)) \<or>
         inviteExists (db w) (trim (toLowerCase e))))"
proof (cases "userEmail user email credentials")
  case (JStr e)
  assume "wf_database (db w)"
  with JStr show ?thesis
    by (simp add: signIn_def authorize_JStr lookups_wf)
qed (simp_all add: signIn_def authorize_not_string)

text \<open>A member signing in with capitals and a trailing space in the address.\<close>

theorem signIn_decision_witness:
  "wf_database (db (freshWorld memberDatabase)) \<and>
   userEmail (Some (JStr ''Member@Example.com '')) JObj None = JStr ''Member@Example.com '' \<and>
   memberExists memberDatabase (trim (toLowerCase ''Member@Example.com '')) \<and>
   fst (signIn (Some (JStr ''Member@Example.com '')) JObj None (freshWorld memberDatabase))"
proof -
  have wf: "wf_database (db (freshWorld memberDatabase))" by code_simp
  have u: "userEmail (Some (JStr ''Member@Example.com '')) JObj None = JStr ''Member@Example.com ''"
    by code_simp
  have m: "memberExists memberDatabase (trim (toLowerCase ''Member@Example.com ''))" by code_simp
  from signIn_decision [OF wf, of "Some (JStr ''Member@Example.com '')" JObj None] u m wf
  show ?thesis by (simp add: freshWorld_def)
qed

text \<open>
  The decision is not a function of the normalised email alone: line 139 denies the empty
  string, which is falsy, before any lookup, although an invite for its normalised form,
  the empty string again, exists.
\<close>

theorem signIn_decision_counterexample:
  "wf_database blankInviteDatabase \<and>
   inviteExists blankInviteDatabase (trim (toLowerCase [])) \<and>
   userEmail None (JStr []) None = JStr [] \<and>
   \<not> fst (signIn None (JStr []) None (freshWorld blankInviteDatabase))"
  by code_simp

text \<open>
  C2. An email whose normalised form is on the fixed list is allowed, and the call leaves
  the state as it found it: no statement is sent to the database. In particular
  \<^verbatim>\<open>GUSTAVO.TOLEDO@gmail.com\<close> normalises to \<^verbatim>\<open>gustavo.toledo@gmail.com\<close>,
  which is on the list.
\<close>

theorem allow_list_no_lookup:
  "(trim (toLowerCase e) \<in> INVITE_ONLY_ALLOWED_EMAILS \<longrightarrow> authorize (JStr e) w = (True, w)) \<and>
   trim (toLowerCase ''GUSTAVO.TOLEDO@gmail.com'') = ''gustavo.toledo@gmail.com'' \<and>
   ''gustavo.toledo@gmail.com'' \<in> INVITE_ONLY_ALLOWED_EMAILS \<and>
   authorize (JStr ''GUSTAVO.TOLEDO@gmail.com'') w = (True, w)"
proof -
  have general: "authorize (JStr s) w = (True, w)"
    if "trim (toLowerCase s) \<in> INVITE_ONLY_ALLOWED_EMAILS" for s
  proof -
    from that have "s \<noteq> []"
      using Nil_not_allowed by (auto simp add: normalize_Nil)
    with that show ?thesis by (simp add: authorize_JStr)
  qed
  have n: "trim (toLowerCase ''GUSTAVO.TOLEDO@gmail.com'') = ''gustavo.toledo@gmail.com''"
    by code_simp
  have a: "''gustavo.toledo@gmail.com'' \<in> INVITE_ONLY_ALLOWED_EMAILS"
    by (simp add: allowed_values)
  from n a have "authorize (JStr ''GUSTAVO.TOLEDO@gmail.com'') w = (True, w)"
    by (intro general) simp
  with general n a show ?thesis by blast
qed

text \<open>The second address of the list, with capitals and surrounding spaces.\<close>

theorem allow_list_no_lookup_witness:
  "trim (toLowerCase ''  Johannaosoriolizarazo@Gmail.com '') \<in> INVITE_ONLY_ALLOWED_EMAILS \<and>
   authorize (JStr ''  Johannaosoriolizarazo@Gmail.com '') (freshWorld memberDatabase)
     = (True, freshWorld memberDatabase) \<and>
   queries (snd (authorize (JStr ''  Johannaosoriolizarazo@Gmail.com '') (freshWorld memberDatabase))) = []"
proof -
  have n: "trim (toLowerCase ''  Johannaosoriolizarazo@Gmail.com '') = ''johannaosoriolizarazo@gmail.com''"
    by code_simp
  have h: "trim (toLowerCase ''  Johannaosoriolizarazo@Gmail.com '') \<in> INVITE_ONLY_ALLOWED_EMAILS"
    by (simp only: n) (simp add: allowed_values)
  from allow_list_no_lookup [of "''  Johannaosoriolizarazo@Gmail.com ''" "freshWorld memberDatabase"] h
  have "authorize (JStr ''  Johannaosoriolizarazo@Gmail.com '') (freshWorld memberDatabase)
     = (True, freshWorld memberDatabase)" by blast
  with h show ?thesis by (simp add: freshWorld_def)
qed

text \<open>
  C3. An email that is empty, or whose normalised form is not empty, is treated as its
  normalised form is: the same decision, the same statements sent, the same lines logged.
  Two non-empty emails with the same normalised form are treated alike.
\<close>

theorem authorize_normalised:
  "(e = [] \<or> trim (toLowerCase e) \<noteq> [] \<longrightarrow>
      authorize (JStr e) w = authorize (JStr (trim (toLowerCase e))) w) \<and>
   (e \<noteq> [] \<and> e' \<noteq> [] \<and> trim (toLowerCase e) = trim (toLowerCase e') \<longrightarrow>
      authorize (JStr e) w = authorize (JStr e') w)"
  by (auto simp add: authorize_JStr normalize_idem normalize_Nil)

text \<open>\<^verbatim>\<open>"Foo@Bar.com "\<close> and \<^verbatim>\<open>"foo@bar.com"\<close>.\<close>

theorem authorize_normalised_witness:
  "trim (toLowerCase ''Foo@Bar.com '') = ''foo@bar.com'' \<and>
   authorize (JStr ''Foo@Bar.com '') (freshWorld invitedDatabase)
     = authorize (JStr ''foo@bar.com'') (freshWorld invitedDatabase)"
proof -
  have n: "trim (toLowerCase ''Foo@Bar.com '') = ''foo@bar.com''" by code_simp
  then have h: "''Foo@Bar.com '' = [] \<or> trim (toLowerCase ''Foo@Bar.com '') \<noteq> []" by simp
  from authorize_normalised [of "''Foo@Bar.com ''" "freshWorld invitedDatabase"] h n
  show ?thesis by simp
qed

text \<open>
  An email of white space only passes the guard of line 139 and is looked up as the empty
  string; its normalised form, the empty string, does not pass the guard. With an invite
  whose email is the empty string the first is allowed and the second denied.
\<close>

theorem authorize_normalised_counterexample:
  "trim (toLowerCase '' '') = [] \<and>
   fst (authorize (JStr '' '') (freshWorld blankInviteDatabase)) \<and>
   \<not> fst (authorize (JStr (trim (toLowerCase '' ''))) (freshWorld blankInviteDatabase))"
  by code_simp

text \<open>
  C4. An email whose normalised form is not on the fixed list, is not the email of a user
  with an organization-membership record and has no organization invite is denied; and so
  is every value that is not a string, null and undefined among them.
\<close>

theorem authorize_denies:
  "(trim (toLowerCase e) \<notin> INVITE_ONLY_ALLOWED_EMAILS \<and>
    \<not> memberExists (db w) (trim (toLowerCase e)) \<and>
    \<not> inviteExists (db w) (trim (toLowerCase e)) \<longrightarrow> \<not> fst (authorize (JStr e) w)) \<and>
   (typeof c \<noteq> ''string'' \<longrightarrow> \<not> fst (authorize c w))"
  using lookups_sound [of "trim (toLowerCase e)" w]
  by (auto simp add: authorize_JStr authorize_not_string)

text \<open>An unknown address, and an undefined email, against a database with one member.\<close>

theorem authorize_denies_witness:
  "trim (toLowerCase ''Random@Nowhere.com'') \<notin> INVITE_ONLY_ALLOWED_EMAILS \<and>
   \<not> memberExists memberDatabase (trim (toLowerCase ''Random@Nowhere.com'')) \<and>
   \<not> inviteExists memberDatabase (trim (toLowerCase ''Random@Nowhere.com'')) \<and>
   \<not> fst (authorize (JStr ''Random@Nowhere.com'') (freshWorld memberDatabase)) \<and>
   \<not> fst (authorize JUndefined (freshWorld memberDatabase))"
proof -
  have n: "trim (toLowerCase ''Random@Nowhere.com'') = ''random@nowhere.com''" by code_simp
  have a: "trim (toLowerCase ''Random@Nowhere.com'') \<notin> INVITE_ONLY_ALLOWED_EMAILS"
    by (simp only: n) (simp add: allowed_values)
  have m: "\<not> memberExists memberDatabase (trim (toLowerCase ''Random@Nowhere.com''))"
    by code_simp
  have i: "\<not> inviteExists memberDatabase (trim (toLowerCase ''Random@Nowhere.com''))"
    by code_simp
  from authorize_denies [of "''Random@Nowhere.com''" "freshWorld memberDatabase" JUndefined] a m i
  show ?thesis by (simp add: freshWorld_def)
qed

text \<open>An email that is not on the fixed list is allowed when it has an invite.\<close>

theorem authorize_denies_counterexample:
  "trim (toLowerCase ''invited@example.com'') \<notin> INVITE_ONLY_ALLOWED_EMAILS \<and>
   fst (authorize (JStr ''invited@example.com'') (freshWorld invitedDatabase))"
proof -
  have n: "trim (toLowerCase ''invited@example.com'') = ''invited@example.com''" by code_simp
  have a: "trim (toLowerCase ''invited@example.com'') \<notin> INVITE_ONLY_ALLOWED_EMAILS"
    by (simp only: n) (simp add: allowed_values)
  have "fst (authorize (JStr ''invited@example.com'') (freshWorld invitedDatabase))"
    by code_simp
  with a show ?thesis by simp
qed

text \<open>
  C5. In a database that satisfies \<open>wf_database\<close>, a non-empty email whose normalised
  form is the email of a user with an organization-membership record is allowed, whether
  or not an invite exists for it.
\<close>

theorem member_allowed_without_invite:
  "wf_database (db w) \<Longrightarrow> e \<noteq> [] \<Longrightarrow> memberExists (db w) (trim (toLowerCase e)) \<Longrightarrow>
     fst (authorize (JStr e) w)"
  by (simp add: authorize_JStr lookups_wf)

text \<open>A member without any invite.\<close>

theorem member_allowed_without_invite_witness:
  "wf_database (db (freshWorld memberDatabase)) \<and> ''MEMBER@example.com'' \<noteq> [] \<and>
   memberExists (db (freshWorld memberDatabase)) (trim (toLowerCase ''MEMBER@example.com'')) \<and>
   \<not> inviteExists (db (freshWorld memberDatabase)) (trim (toLowerCase ''MEMBER@example.com'')) \<and>
   fst (authorize (JStr ''MEMBER@example.com'') (freshWorld memberDatabase))"
proof -
  have wf: "wf_database (db (freshWorld memberDatabase))" by code_simp
  have ne: "''MEMBER@example.com'' \<noteq> []" by simp
  have m: "memberExists (db (freshWorld memberDatabase)) (trim (toLowerCase ''MEMBER@example.com''))"
    by code_simp
  have i: "\<not> inviteExists (db (freshWorld memberDatabase)) (trim (toLowerCase ''MEMBER@example.com''))"
    by code_simp
  from member_allowed_without_invite [OF wf ne m] wf m i show ?thesis by simp
qed

text \<open>
  The empty email is denied by the guard of line 139 although a user record with the empty
  string as email exists and belongs to an organization.
\<close>

theorem member_allowed_without_invite_counterexample:
  "wf_database blankMemberDatabase \<and>
   memberExists blankMemberDatabase (trim (toLowerCase [])) \<and>
   \<not> fst (authorize (JStr []) (freshWorld blankMemberDatabase))"
  by code_simp

text \<open>
  C6. A resolved email that is not a string, null and undefined among them, is denied and
  the state is left as it was: no statement is sent to the database.
\<close>

theorem authorize_absent:
  "(typeof c \<noteq> ''string'' \<longrightarrow> authorize c w = (False, w)) \<and>
   authorize JNull w = (False, w) \<and> authorize JUndefined w = (False, w)"
  by (simp add: authorize_not_string)

text \<open>An object and null in place of the email.\<close>

theorem authorize_absent_witness:
  "typeof JObj \<noteq> ''string'' \<and>
   authorize JObj (freshWorld invitedDatabase) = (False, freshWorld invitedDatabase) \<and>
   authorize JNull (freshWorld invitedDatabase) = (False, freshWorld invitedDatabase) \<and>
   queries (snd (authorize JNull (freshWorld invitedDatabase))) = []"
  using authorize_absent [of JObj "freshWorld invitedDatabase"]
  by (simp add: freshWorld_def)

text \<open>
  C7. When a non-empty email is denied, exactly one line is added to the console, and it
  ends with the normalised email.
\<close>

theorem blocked_logged:
  "e \<noteq> [] \<Longrightarrow> \<not> fst (authorize (JStr e) w) \<Longrightarrow>
     console (snd (authorize (JStr e) w)) =
       console w @ [''Signup blocked (invite-only): '' @ trim (toLowerCase e)]"
  by (simp add: authorize_JStr lookups_console split: if_splits)

text \<open>\<^verbatim>\<open>random@nowhere.com\<close> against the empty database.\<close>

theorem blocked_logged_witness:
  "''random@nowhere.com'' \<noteq> [] \<and>
   \<not> fst (authorize (JStr ''random@nowhere.com'') (freshWorld emptyDatabase)) \<and>
   console (snd (authorize (JStr ''random@nowhere.com'') (freshWorld emptyDatabase))) =
     [''Signup blocked (invite-only): random@nowhere.com'']"
proof -
  have ne: "''random@nowhere.com'' \<noteq> []" by simp
  have d: "\<not> fst (authorize (JStr ''random@nowhere.com'') (freshWorld emptyDatabase))"
    by code_simp
  have n: "trim (toLowerCase ''random@nowhere.com'') = ''random@nowhere.com''" by code_simp
  from blocked_logged [OF ne d] d n show ?thesis by (simp add: freshWorld_def)
qed

text \<open>
  C8. Whatever its arguments, \<open>signIn\<close> returns the database as it received it; it sends
  at most three statements, each of them one of the three selects.
\<close>

theorem signIn_read_only:
  "db (snd (signIn user email credentials w)) = db w \<and>
   (\<exists>qs. queries (snd (signIn user email credentials w)) = queries w @ qs \<and> length qs \<le> 3)"
proof (cases "userEmail user email credentials")
  case (JStr e)
  then show ?thesis
    using lookups_queries [of "trim (toLowerCase e)" w]
    by (simp add: signIn_def authorize_JStr lookups_db)
qed (simp_all add: signIn_def authorize_not_string)

text \<open>The two selects sent for a member.\<close>

theorem signIn_read_only_witness:
  "db (snd (signIn (Some (JStr ''Member@Example.com'')) JObj None (freshWorld memberDatabase)))
     = memberDatabase \<and>
   queries (snd (signIn (Some (JStr ''Member@Example.com'')) JObj None (freshWorld memberDatabase)))
     = [SelectUsersWhereEmail ''member@example.com'', SelectOrganizationMembersWhereUserId ''u1'']"
proof -
  have "queries (snd (signIn (Some (JStr ''Member@Example.com'')) JObj None (freshWorld memberDatabase)))
     = [SelectUsersWhereEmail ''member@example.com'', SelectOrganizationMembersWhereUserId ''u1'']"
    by code_simp
  with signIn_read_only [of "Some (JStr ''Member@Example.com'')" JObj None "freshWorld memberDatabase"]
  show ?thesis by (simp add: freshWorld_def)
qed

text \<open>
  C9. Every token that \<open>generateVerificationToken\<close> can produce is the decimal numeral
  of an integer from 100000 to 999999: a string of exactly six decimal digits whose first
  digit is not zero.
\<close>

theorem verification_token_six_digits:
  "t \<in> generateVerificationToken \<Longrightarrow>
     (\<exists>n. 100000 \<le> n \<and> n \<le> 999999 \<and> t = toString n) \<and>
     length t = 6 \<and> (\<forall>c \<in> set t. isDecimalDigit c) \<and> hd t \<noteq> CHR ''0''"
proof -
  assume "t \<in> generateVerificationToken"
  then obtain n where n: "100000 \<le> n" "n < 1000000" and t: "t = toString n"
    by (auto simp add: generateVerificationToken_def randomInt_def)
  from n have t': "t = decimal (nat n)"
    by (simp add: t toString_def)
  from n have "10 ^ 5 \<le> nat n" and "nat n < 10 ^ Suc 5" by simp_all
  then have "length (decimal (nat n)) = Suc 5" by (rule decimal_length)
  moreover from n have "hd (decimal (nat n)) \<noteq> CHR ''0''"
    by (intro decimal_leading) simp
  moreover from n t have "\<exists>m. 100000 \<le> m \<and> m \<le> 999999 \<and> t = toString m"
    by (intro exI [of _ n]) simp
  ultimately show ?thesis
    using decimal_digits [of "nat n"] by (simp add: t')
qed

text \<open>The token for the integer 123456.\<close>

theorem verification_token_six_digits_witness:
  "''123456'' \<in> generateVerificationToken \<and>
     (\<exists>n. 100000 \<le> n \<and> n \<le> 999999 \<and> ''123456'' = toString n) \<and>
     length ''123456'' = 6 \<and> list_all isDecimalDigit ''123456'' \<and>
     hd ''123456'' \<noteq> CHR ''0''"
proof -
  have s: "toString 123456 = ''123456''"
    by (simp add: toString_def decimal.simps digitChar_values)
  have "toString 123456 \<in> generateVerificationToken"
    unfolding generateVerificationToken_def randomInt_def by (rule imageI) simp
  then have m: "''123456'' \<in> generateVerificationToken" by (simp only: s)
  from verification_token_six_digits [OF m] m show ?thesis
    unfolding list_all_iff by blast
qed

text \<open>
  C10. The email is resolved in a fixed order: \<^verbatim>\<open>user.email\<close> when it is truthy;
  otherwise the \<^verbatim>\<open>email\<close> argument when it is a string; otherwise
  \<^verbatim>\<open>credentials.email\<close> when it is a string; otherwise null, and the sign-in is
  denied. An empty \<^verbatim>\<open>user.email\<close> is passed over like a missing one.
\<close>

theorem userEmail_precedence:
  "(truthy (optional_email user) \<longrightarrow>
      userEmail user email credentials = optional_email user) \<and>
   (\<not> truthy (optional_email user) \<and> typeof email = ''string'' \<longrightarrow>
      userEmail user email credentials = email) \<and>
   (\<not> truthy (optional_email user) \<and> typeof email \<noteq> ''string'' \<and>
      typeof (optional_email credentials) = ''string'' \<longrightarrow>
      userEmail user email credentials = optional_email credentials) \<and>
   (\<not> truthy (optional_email user) \<and> typeof email \<noteq> ''string'' \<and>
      typeof (optional_email credentials) \<noteq> ''string'' \<longrightarrow>
      userEmail user email credentials = JNull \<and>
      signIn user email credentials w = (False, w)) \<and>
   userEmail (Some (JStr [])) email credentials = userEmail None email credentials"
  by (simp add: userEmail_def js_or_def signIn_def authorize_not_string)

text \<open>One call for each of the four cases.\<close>

theorem userEmail_precedence_witness:
  "userEmail (Some (JStr ''a@x.org'')) (JStr ''b@x.org'') (Some (JStr ''c@x.org'')) = JStr ''a@x.org'' \<and>
   userEmail (Some (JStr [])) (JStr ''b@x.org'') (Some (JStr ''c@x.org'')) = JStr ''b@x.org'' \<and>
   userEmail (Some (JStr [])) JObj (Some (JStr ''c@x.org'')) = JStr ''c@x.org'' \<and>
   userEmail (Some (JStr [])) JObj (Some (JNum 7)) = JNull \<and>
   signIn (Some (JStr [])) JObj (Some (JNum 7)) (freshWorld invitedDatabase)
     = (False, freshWorld invitedDatabase)"
  using userEmail_precedence [of "Some (JStr ''a@x.org'')" "JStr ''b@x.org''" "Some (JStr ''c@x.org'')" "freshWorld invitedDatabase"]
    userEmail_precedence [of "Some (JStr [])" "JStr ''b@x.org''" "Some (JStr ''c@x.org'')" "freshWorld invitedDatabase"]
    userEmail_precedence [of "Some (JStr [])" JObj "Some (JStr ''c@x.org'')" "freshWorld invitedDatabase"]
    userEmail_precedence [of "Some (JStr [])" JObj "Some (JNum 7)" "freshWorld invitedDatabase"]
  by simp

end
